theory Spec2Isabelle
  imports Main
begin

section \<open>JavaScript strings and values\<close>

text \<open>
  Strings are lists of characters. A string is falsy exactly when it is empty
  (\<^verbatim>\<open>!html\<close>, \<^verbatim>\<open>item.title && item.link\<close>, \<^verbatim>\<open>a || b\<close>).
\<close>

definition truthy :: "string \<Rightarrow> bool" where
  "truthy s = (s \<noteq> [])"

text \<open>\<^verbatim>\<open>a || b\<close> on strings.\<close>

definition or_else :: "string \<Rightarrow> string \<Rightarrow> string" where
  "or_else a b = (if truthy a then a else b)"

text \<open>
  \<^verbatim>\<open>String.prototype.trim\<close>: white space and line terminators are removed at both ends
  (the characters of the 8-bit range: TAB, LF, VT, FF, CR, SP, NBSP).
\<close>

definition is_space :: "char \<Rightarrow> bool" where
  "is_space c = (c \<in> set [CHR 0x09, CHR 0x0A, CHR 0x0B, CHR 0x0C, CHR 0x0D, CHR 0x20, CHR 0xA0])"

definition trim :: "string \<Rightarrow> string" where
  "trim s = rev (dropWhile is_space (rev (dropWhile is_space s)))"

text \<open>\<^verbatim>\<open>s.startsWith(p)\<close>.\<close>

definition startsWith :: "string \<Rightarrow> string \<Rightarrow> bool" where
  "startsWith s p = (take (length p) s = p)"

section \<open>The three routes\<close>

text \<open>
  \<open>CteeCategory\<close> is \<^verbatim>\<open>lib/routes/ctee/category.ts\<close>, \<open>CteeNews\<close> is the second ctee
  route (the one that reads \<^verbatim>\<open>.newslist__card\<close>), \<open>Blocktempo\<close> is
  \<^verbatim>\<open>lib/routes/blocktempo/year.ts\<close>.
\<close>

datatype site = CteeCategory | CteeNews | Blocktempo

fun baseUrl :: "site \<Rightarrow> string" where
  "baseUrl CteeCategory = ''https://ctee.com.tw''"
| "baseUrl CteeNews = ''https://ctee.com.tw''"
| "baseUrl Blocktempo = ''https://www.blocktempo.com''"

section \<open>Listing markup\<close>

text \<open>
  The HTML selection facility (cheerio) is outside the program. A candidate node is
  represented by what the route's sub-selectors read from it, before trimming:
  \<^item> \<open>href\<close>: \<^verbatim>\<open>.attr('href')\<close> of the link element, \<open>None\<close> for \<^verbatim>\<open>undefined\<close>;
  \<^item> \<open>link_text\<close>: \<^verbatim>\<open>.text()\<close> of the link element;
  \<^item> \<open>heading_text\<close>: \<^verbatim>\<open>.text()\<close> of the first \<^verbatim>\<open>h2, h3, .title, [class*="title"]\<close>
    (read by \<open>CteeCategory\<close> only);
  \<^item> \<open>summary_text\<close>, \<open>date_text\<close>, \<open>category_text\<close>, \<open>author_text\<close>: \<^verbatim>\<open>.text()\<close>
    of the summary, date, category and author elements;
  \<^item> \<open>img_src\<close>: \<^verbatim>\<open>.attr('src')\<close> of the thumbnail.
  A parsed document answers \<^verbatim>\<open>$(selector).toArray()\<close>: the matching nodes in document order.
\<close>

record cand =
  href :: "string option"
  link_text :: string
  heading_text :: string
  summary_text :: string
  date_text :: string
  category_text :: string
  author_text :: string
  img_src :: "string option"

type_synonym dom = "string \<Rightarrow> cand list"

text \<open>The record handed to the feed; \<open>'d\<close> is the type of dates \<^verbatim>\<open>parseDate\<close> returns.\<close>

record 'd item =
  title :: string
  link :: string
  description :: string
  pubDate :: "'d option"
  author :: "string option"
  category :: "string list option"
  image :: "string option"

text \<open>
  \<^verbatim>\<open>link?.startsWith('http') ? link : `${baseUrl}${link}`\<close>: an undefined \<^verbatim>\<open>link\<close> makes the
  condition undefined, and the template literal prints it as \<^verbatim>\<open>undefined\<close>.
\<close>

definition absolute_link :: "site \<Rightarrow> string option \<Rightarrow> string" where
  "absolute_link s l =
     (case l of
        Some h \<Rightarrow> if startsWith h ''http'' then h else baseUrl s @ h
      | None \<Rightarrow> baseUrl s @ ''undefined'')"

text \<open>\<^verbatim>\<open>dateText ? parseDate(dateText) : undefined\<close>.\<close>

definition date_of :: "(string \<Rightarrow> 'd) \<Rightarrow> string \<Rightarrow> 'd option" where
  "date_of parseDate dateText = (if truthy dateText then Some (parseDate dateText) else None)"

text \<open>The callback of \<^verbatim>\<open>.map\<close> in each route.\<close>

fun list_item :: "site \<Rightarrow> (string \<Rightarrow> 'd) \<Rightarrow> cand \<Rightarrow> 'd item" where
  "list_item CteeCategory parseDate c =
     \<lparr>title = or_else (trim (heading_text c)) (trim (link_text c)),
      link = absolute_link CteeCategory (href c),
      description = trim (summary_text c),
      pubDate = date_of parseDate (trim (date_text c)),
      author = None,
      category = None,
      image = None\<rparr>"
| "list_item CteeNews parseDate c =
     \<lparr>title = trim (link_text c),
      link = absolute_link CteeNews (href c),
      description = trim (summary_text c),
      pubDate = date_of parseDate (trim (date_text c)),
      author = None,
      category = (if truthy (trim (category_text c)) then Some [trim (category_text c)] else None),
      image = img_src c\<rparr>"
| "list_item Blocktempo parseDate c =
     \<lparr>title = trim (link_text c),
      link = absolute_link Blocktempo (href c),
      description = trim (summary_text c),
      pubDate = date_of parseDate (trim (date_text c)),
      author = Some (trim (author_text c)),
      category = None,
      image = img_src c\<rparr>"

text \<open>
  \<open>CteeCategory\<close> tries its selectors in order and keeps the matches of the first one
  that matches anything; the other two routes use one selector.
\<close>

definition articleSelectors :: "string list" where
  "articleSelectors =
     [''article'', ''.news-item'', ''.article-item'', ''.list-item'',
      ''[class*=\"news\"]'', ''[class*=\"article\"]'']"

fun first_found :: "dom \<Rightarrow> string list \<Rightarrow> cand list" where
  "first_found doc [] = []"
| "first_found doc (selector # rest) =
     (let found = doc selector in if length found > 0 then found else first_found doc rest)"

fun candidates :: "site \<Rightarrow> dom \<Rightarrow> cand list" where
  "candidates CteeCategory doc = first_found doc articleSelectors"
| "candidates CteeNews doc = doc ''.newslist__card''"
| "candidates Blocktempo doc = doc ''article.jeg_post''"

text \<open>\<^verbatim>\<open>.filter((item) => item.title && item.link)\<close>.\<close>

definition keep :: "'d item \<Rightarrow> bool" where
  "keep i = (truthy (title i) \<and> truthy (link i))"

text \<open>\<^verbatim>\<open>.slice(0, 20).map(...).filter(...)\<close> on the candidate nodes.\<close>

definition list_of :: "site \<Rightarrow> (string \<Rightarrow> 'd) \<Rightarrow> cand list \<Rightarrow> 'd item list" where
  "list_of s parseDate nodes = filter keep (map (list_item s parseDate) (take 20 nodes))"

definition extractListing :: "site \<Rightarrow> (string \<Rightarrow> 'd) \<Rightarrow> dom \<Rightarrow> 'd item list" where
  "extractListing s parseDate doc = list_of s parseDate (candidates s doc)"

section \<open>Detail markup\<close>

text \<open>
  What the selectors of the detail callbacks read from a loaded detail page, after the
  route's \<^verbatim>\<open>.remove()\<close> calls:
  \<^item> \<open>content_html\<close>: \<^verbatim>\<open>.html()\<close> of the content container, \<open>None\<close> for \<^verbatim>\<open>null\<close>;
  \<^item> \<open>datetime_attr\<close>: \<^verbatim>\<open>dateEl.attr('datetime')\<close> (\<open>CteeCategory\<close>);
  \<^item> \<open>date_el_text\<close>: \<^verbatim>\<open>dateEl.text()\<close> (\<open>CteeCategory\<close>), the text of
    \<^verbatim>\<open>.publish-date time\<close> (\<open>CteeNews\<close>);
  \<^item> \<open>time_el_text\<close>: the text of \<^verbatim>\<open>.publish-time time\<close> (\<open>CteeNews\<close>);
  \<^item> \<open>author_el_text\<close>: the text of the author element;
  \<^item> \<open>category_texts\<close>: the text of each \<^verbatim>\<open>.jeg_meta_category a\<close> (\<open>Blocktempo\<close>).
\<close>

record detail =
  content_html :: "string option"
  datetime_attr :: "string option"
  date_el_text :: string
  time_el_text :: string
  author_el_text :: string
  category_texts :: "string list"

text \<open>\<^verbatim>\<open>if (content) { item.description = content; }\<close>, the same in the three routes.\<close>

definition set_content :: "string option \<Rightarrow> 'd item \<Rightarrow> 'd item" where
  "set_content content i =
     (case content of
        Some c \<Rightarrow> if truthy c then i\<lparr>description := c\<rparr> else i
      | None \<Rightarrow> i)"

text \<open>\<^verbatim>\<open>if (author) { item.author = author; }\<close>.\<close>

definition set_author :: "string \<Rightarrow> 'd item \<Rightarrow> 'd item" where
  "set_author a i = (if truthy a then i\<lparr>author := Some a\<rparr> else i)"

text \<open>The statements of the detail callback that follow \<^verbatim>\<open>load(detailHtml)\<close>.\<close>

fun enrich :: "site \<Rightarrow> (string \<Rightarrow> 'd) \<Rightarrow> detail \<Rightarrow> 'd item \<Rightarrow> 'd item" where
  "enrich CteeCategory parseDate d i =
     (let i1 = set_content (content_html d) i;
          datetime = or_else (case datetime_attr d of Some a \<Rightarrow> a | None \<Rightarrow> [])
                             (trim (date_el_text d));
          i2 = (if truthy datetime then i1\<lparr>pubDate := Some (parseDate datetime)\<rparr> else i1)
      in set_author (trim (author_el_text d)) i2)"
| "enrich CteeNews parseDate d i =
     (let i1 = set_content (content_html d) i;
          dateText = trim (date_el_text d);
          timeText = trim (time_el_text d);
          i2 = (if truthy dateText
                then i1\<lparr>pubDate := Some (parseDate
                        (if truthy timeText then dateText @ '' '' @ timeText else dateText))\<rparr>
                else i1)
      in set_author (trim (author_el_text d)) i2)"
| "enrich Blocktempo parseDate d i =
     (let i1 = set_content (content_html d) i;
          categories = filter truthy (map trim (category_texts d))
      in if length categories > 0 then i1\<lparr>category := Some categories\<rparr> else i1)"

section \<open>Configuration, errors and the outside world\<close>

record config =
  puppeteerRealBrowserService :: "string option"
  chromiumExecutablePath :: "string option"

text \<open>A setting is truthy when it is defined and not the empty string.\<close>

definition configured :: "string option \<Rightarrow> bool" where
  "configured v = (case v of None \<Rightarrow> False | Some s \<Rightarrow> truthy s)"

text \<open>
  \<open>Error m\<close> is \<^verbatim>\<open>new Error(m)\<close> thrown by the handler; \<open>Rejected\<close> is any exception or
  rejected promise of a collaborator (browser, network, JSON parser, cheerio).
\<close>

datatype error = Error string | Rejected

text \<open>
  One \<^verbatim>\<open>page.evaluate\<close> of the readiness check resolves to \<^verbatim>\<open>true\<close> (\<open>Found\<close>), resolves
  to \<^verbatim>\<open>null\<close> (\<open>Missing\<close>) or rejects (\<open>Crashed\<close>).
\<close>

datatype poll = Found | Missing | Crashed

text \<open>
  What the browser page does when it is sent to a URL and asked for a selector:
  whether \<^verbatim>\<open>page.goto\<close> resolves, the outcome of the k-th \<^verbatim>\<open>page.evaluate\<close> together with
  the milliseconds it takes, and what \<^verbatim>\<open>page.content()\<close> gives as a function of the
  milliseconds since the navigation ended.
\<close>

record navigation =
  goto_result :: "error + unit"
  polls :: "nat \<Rightarrow> poll \<times> nat"
  content_at :: "nat \<Rightarrow> error + string"

text \<open>
  The remote service's answer. \<^verbatim>\<open>fetch\<close> rejects on a transport error and when the
  60000 ms abort signal fires; \<^verbatim>\<open>res.json()\<close> rejects on a body that is not JSON. Of
  a parsed body the code reads \<^verbatim>\<open>json.data?.at(0)\<close>: \<open>JNull\<close> is the body \<^verbatim>\<open>null\<close>
  (reading \<^verbatim>\<open>.data\<close> throws), \<open>NoData\<close> a body whose \<^verbatim>\<open>data\<close> is undefined or null,
  \<open>Snapshots xs\<close> a body whose \<^verbatim>\<open>data\<close> is the array of strings \<open>xs\<close> (the cast
  \<^verbatim>\<open>as string\<close> of the source), \<open>NoAt\<close> a body whose \<^verbatim>\<open>data\<close> has no method \<^verbatim>\<open>at\<close>
  (calling it throws).
\<close>

datatype body = JNull | NoData | Snapshots "string list" | NoAt

datatype response = FetchRejected | JsonRejected | Json body

record 'd world =
  connect_result :: "error + unit"
  page :: "string \<Rightarrow> string \<Rightarrow> navigation"
  service :: "string \<Rightarrow> string \<Rightarrow> response"
  load :: "string \<Rightarrow> dom"
  load_detail :: "string \<Rightarrow> error + detail"
  parseDate :: "string \<Rightarrow> 'd"

text \<open>
  The effects of a run, in order: a call of \<^verbatim>\<open>connect\<close>, a \<^verbatim>\<open>page.goto\<close> of the
  session's page, a request to the remote service, a \<^verbatim>\<open>browser.close()\<close>.
\<close>

datatype event = Connect | Navigate string | Request string | Close

text \<open>
  The state a run works on: the cache, the variable \<^verbatim>\<open>conn\<close> (\<open>True\<close> when it is not
  null), whether the browser it refers to is running, the delays of the armed
  timers (each with the callback \<^verbatim>\<open>if (conn) await conn.browser.close()\<close>), and the
  effects so far.
\<close>

record 'd state =
  cache :: "string \<rightharpoonup> 'd item"
  conn :: bool
  browser_open :: bool
  timers :: "nat list"
  trace :: "event list"

definition init_state :: "(string \<rightharpoonup> 'd item) \<Rightarrow> 'd state" where
  "init_state c = \<lparr>cache = c, conn = False, browser_open = False, timers = [], trace = []\<rparr>"

definition log :: "event \<Rightarrow> 'd state \<Rightarrow> 'd state" where
  "log e st = st\<lparr>trace := trace st @ [e]\<rparr>"

text \<open>
  Modelled from the spec: \<^verbatim>\<open>browser.close()\<close> of the automation backend, which is not
  part of the source. Section 4.1: close is idempotent, safe to call multiple times,
  and releases all underlying resources.
\<close>

definition browser_close :: "'d state \<Rightarrow> 'd state" where
  "browser_close st = log Close (st\<lparr>browser_open := False\<rparr>)"

text \<open>The callback of \<^verbatim>\<open>setTimeout\<close>, run when an armed timer fires.\<close>

definition timer_fires :: "'d state \<Rightarrow> 'd state" where
  "timer_fires st = (if conn st then browser_close st else st)"

section \<open>getPageWithRealBrowser\<close>

text \<open>\<^verbatim>\<open>.catch(() => null)\<close> on the evaluation: \<open>None\<close> is \<^verbatim>\<open>null\<close>.\<close>

fun evaluate_catch :: "poll \<Rightarrow> bool option" where
  "evaluate_catch Found = Some True"
| "evaluate_catch Missing = None"
| "evaluate_catch Crashed = None"

text \<open>\<^verbatim>\<open>!verify\<close> for \<^verbatim>\<open>verify: boolean | null\<close>.\<close>

definition not_verified :: "bool option \<Rightarrow> bool" where
  "not_verified v = (v \<noteq> Some True)"

text \<open>
  The loop \<^verbatim>\<open>while (!verify && Date.now() - startDate < 60000)\<close>. \<open>k\<close> counts the
  evaluations made, \<open>elapsed\<close> is \<^verbatim>\<open>Date.now() - startDate\<close> in milliseconds; an iteration
  takes the time of its evaluation and the 1000 ms of its \<^verbatim>\<open>setTimeout\<close>. The result is
  the final \<^verbatim>\<open>verify\<close>, the number of evaluations made and the time spent.
\<close>

function wait_loop :: "(nat \<Rightarrow> poll \<times> nat) \<Rightarrow> nat \<Rightarrow> bool option \<Rightarrow> nat \<Rightarrow> bool option \<times> nat \<times> nat" where
  "wait_loop ps k verify elapsed =
     (if not_verified verify \<and> elapsed < 60000
      then wait_loop ps (Suc k) (evaluate_catch (fst (ps k))) (elapsed + snd (ps k) + 1000)
      else (verify, k, elapsed))"
  by pat_completeness auto
termination
  by (relation "measure (\<lambda>(ps, k, verify, elapsed). 60000 - elapsed)") auto

text \<open>The branch \<^verbatim>\<open>if (conn)\<close> of the \<^verbatim>\<open>try\<close> block.\<close>

definition render_local :: "navigation \<Rightarrow> error + string" where
  "render_local nav =
     (case goto_result nav of
        Inl e \<Rightarrow> Inl e
      | Inr _ \<Rightarrow> (case wait_loop (polls nav) 0 None 0 of
                    (verify, k, elapsed) \<Rightarrow> content_at nav elapsed))"

text \<open>The \<^verbatim>\<open>else\<close> branch: \<^verbatim>\<open>(json.data?.at(0) || '')\<close> of the service's answer.\<close>

fun render_remote :: "response \<Rightarrow> error + string" where
  "render_remote FetchRejected = Inl Rejected"
| "render_remote JsonRejected = Inl Rejected"
| "render_remote (Json JNull) = Inl Rejected"
| "render_remote (Json NoData) = Inr ''''"
| "render_remote (Json NoAt) = Inl Rejected"
| "render_remote (Json (Snapshots [])) = Inr ''''"
| "render_remote (Json (Snapshots (x # xs))) = Inr (or_else x '''')"

text \<open>\<^verbatim>\<open>catch { return ''; }\<close>.\<close>

definition catch_empty :: "error + string \<Rightarrow> string" where
  "catch_empty r = (case r of Inl e \<Rightarrow> '''' | Inr s \<Rightarrow> s)"

definition getPageWithRealBrowser ::
  "'d world \<Rightarrow> string \<Rightarrow> string \<Rightarrow> 'd state \<Rightarrow> string \<times> 'd state" where
  "getPageWithRealBrowser w url selector st =
     (if conn st
      then (catch_empty (render_local (page w url selector)), log (Navigate url) st)
      else (catch_empty (render_remote (service w url selector)), log (Request url) st))"

section \<open>The detail fan-out\<close>

text \<open>
  Modelled from the spec: \<^verbatim>\<open>cache.tryGet\<close> of \<^verbatim>\<open>@/utils/cache\<close>, which is not part of
  the source. Section 4.5 (\<^verbatim>\<open>getOrFetch(key, compute)\<close>): a retained result is
  returned without running \<^verbatim>\<open>compute\<close>; otherwise \<^verbatim>\<open>compute\<close> runs, a successful result
  is retained under the key, and a failed computation is not cached.
\<close>

definition tryGet ::
  "string \<Rightarrow> ('d state \<Rightarrow> (error + 'd item) \<times> 'd state) \<Rightarrow> 'd state \<Rightarrow> (error + 'd item) \<times> 'd state" where
  "tryGet key compute st =
     (case cache st key of
        Some v \<Rightarrow> (Inr v, st)
      | None \<Rightarrow>
          (case compute st of
             (Inl e, st') \<Rightarrow> (Inl e, st')
           | (Inr v, st') \<Rightarrow> (Inr v, st'\<lparr>cache := (cache st')(key \<mapsto> v)\<rparr>)))"

fun detail_selector :: "site \<Rightarrow> string" where
  "detail_selector CteeCategory = ''article, .article-content, .content''"
| "detail_selector CteeNews = ''.article-wrap''"
| "detail_selector Blocktempo = ''.entry-content''"

text \<open>
  The \<^verbatim>\<open>try\<close> block of the callback given to \<^verbatim>\<open>cache.tryGet\<close>, after the page is
  fetched: an exception of the selection facility is taken to arise when the detail
  page is loaded, before the item is changed.
\<close>

definition detail_try :: "site \<Rightarrow> 'd world \<Rightarrow> string \<Rightarrow> 'd item \<Rightarrow> error + 'd item" where
  "detail_try s w detailHtml i =
     (if truthy detailHtml
      then (case load_detail w detailHtml of
              Inl e \<Rightarrow> Inl e
            | Inr d \<Rightarrow> Inr (enrich s (parseDate w) d i))
      else Inr i)"

text \<open>
  The callback: \<^verbatim>\<open>try { ... } catch { } return item;\<close>. It always resolves.
\<close>

definition detail_compute ::
  "site \<Rightarrow> 'd world \<Rightarrow> 'd item \<Rightarrow> 'd state \<Rightarrow> (error + 'd item) \<times> 'd state" where
  "detail_compute s w i st =
     (case getPageWithRealBrowser w (link i) (detail_selector s) st of
        (detailHtml, st') \<Rightarrow>
          (Inr (case detail_try s w detailHtml i of Inl e \<Rightarrow> i | Inr i' \<Rightarrow> i'), st'))"

text \<open>
  \<^verbatim>\<open>Promise.all(list.map((item) => cache.tryGet(item.link, ...)))\<close> in the order of
  execution in which each callback returns before the next one starts: every
  computation is run, the results are collected in order, and the first rejection, if
  any, is the rejection of the whole. The handler below is stated for this order; the
  fan-out in any order of execution, on the one shared page, follows the handler.
\<close>

fun fan_out :: "site \<Rightarrow> 'd world \<Rightarrow> 'd item list \<Rightarrow> 'd state \<Rightarrow> (error + 'd item list) \<times> 'd state" where
  "fan_out s w [] st = (Inr [], st)"
| "fan_out s w (i # rest) st =
     (case tryGet (link i) (detail_compute s w i) st of
        (r, st') \<Rightarrow>
          (case fan_out s w rest st' of
             (rs, st'') \<Rightarrow>
               ((case r of
                   Inl e \<Rightarrow> Inl e
                 | Inr v \<Rightarrow> (case rs of Inl e \<Rightarrow> Inl e | Inr vs \<Rightarrow> Inr (v # vs))),
                st'')))"

section \<open>The handler\<close>

text \<open>
  The request: the route parameter (\<open>None\<close> when absent) and, for \<open>Blocktempo\<close>, the
  current year \<^verbatim>\<open>new Date().getFullYear().toString()\<close>.
\<close>

record request =
  param :: "string option"
  currentYear :: string

text \<open>\<^verbatim>\<open>ctx.req.param(...) || dflt\<close>.\<close>

definition param_or :: "string option \<Rightarrow> string \<Rightarrow> string" where
  "param_or p dflt = (case p of None \<Rightarrow> dflt | Some v \<Rightarrow> or_else v dflt)"

fun target_url :: "site \<Rightarrow> request \<Rightarrow> string" where
  "target_url CteeCategory req = baseUrl CteeCategory @ ''/'' @ param_or (param req) ''finance/fintech''"
| "target_url CteeNews req = baseUrl CteeNews @ ''/'' @ param_or (param req) ''finance/fintech''"
| "target_url Blocktempo req =
     baseUrl Blocktempo @ ''/'' @ param_or (param req) (currentYear req) @ ''/''"

fun listing_selector :: "site \<Rightarrow> string" where
  "listing_selector CteeCategory = ''article, .news-list, .article-list''"
| "listing_selector CteeNews = ''.newslist''"
| "listing_selector Blocktempo = ''article.jeg_post''"

definition config_error :: error where
  "config_error =
     Error ''PUPPETEER_REAL_BROWSER_SERVICE or CHROMIUM_EXECUTABLE_PATH is required to use this route.''"

definition fetch_error :: error where
  "fetch_error = Error ''Failed to fetch page. The website may be blocking requests.''"

text \<open>
  \<^verbatim>\<open>if (!config.puppeteerRealBrowserService) { conn = await connect(...); setTimeout(..., 120000); }\<close>.
  A rejection of \<^verbatim>\<open>connect\<close> is not caught.
\<close>

definition acquire :: "config \<Rightarrow> 'd world \<Rightarrow> 'd state \<Rightarrow> (error + unit) \<times> 'd state" where
  "acquire cfg w st =
     (if \<not> configured (puppeteerRealBrowserService cfg)
      then (case connect_result w of
              Inl e \<Rightarrow> (Inl e, log Connect st)
            | Inr _ \<Rightarrow>
                (Inr (), (log Connect st)\<lparr>conn := True, browser_open := True,
                                           timers := timers st @ [120000]\<rparr>))
      else (Inr (), st))"

text \<open>
  What the handler returns: the feed's link and its items (the constant title,
  description and language of the feed are left out).
\<close>

record 'd feed =
  feed_link :: string
  feed_item :: "'d item list"

text \<open>
  The handler, started on a cache. The result is the feed or the error the handler
  throws, together with the state the run leaves behind.
\<close>

definition handler ::
  "site \<Rightarrow> config \<Rightarrow> request \<Rightarrow> 'd world \<Rightarrow> (string \<rightharpoonup> 'd item) \<Rightarrow> (error + 'd feed) \<times> 'd state" where
  "handler s cfg req w c =
     (let st0 = init_state c in
      if \<not> configured (puppeteerRealBrowserService cfg) \<and> \<not> configured (chromiumExecutablePath cfg)
      then (Inl config_error, st0)
      else
        (let url = target_url s req in
         case acquire cfg w st0 of
           (Inl e, st1) \<Rightarrow> (Inl e, st1)
         | (Inr _, st1) \<Rightarrow>
             (case getPageWithRealBrowser w url (listing_selector s) st1 of
                (html, st2) \<Rightarrow>
                  if \<not> truthy html
                  then (Inl fetch_error,
                        if conn st2 then (browser_close st2)\<lparr>conn := False\<rparr> else st2)
                  else
                    (let list = extractListing s (parseDate w) (load w html) in
                     case fan_out s w list st2 of
                       (Inl e, st3) \<Rightarrow> (Inl e, st3)
                     | (Inr items, st3) \<Rightarrow>
                         (Inr \<lparr>feed_link = url, feed_item = items\<rparr>,
                          if conn st3 then browser_close st3 else st3)))))"

section \<open>The fan-out in any order of execution\<close>

text \<open>
  \<^verbatim>\<open>Promise.all(list.map(...))\<close> starts every callback before it waits for any of them,
  and all callbacks of a local run drive the one \<^verbatim>\<open>conn.page\<close>. Between two \<^verbatim>\<open>await\<close>s a
  callback runs alone; at an \<^verbatim>\<open>await\<close> any other callback may go on. A computation has
  two operations on the page: it issues its navigation (\<^verbatim>\<open>page.goto\<close>), and later it
  waits for the selector and reads \<^verbatim>\<open>page.content()\<close>. An order of execution is a list of
  actions: \<open>Step k\<close> lets computation \<open>k\<close> do its next operation, \<open>Fire\<close> lets the armed
  timer fire.
\<close>

datatype page_op = Issued string | ContentRead string

datatype action = Step nat | Fire

text \<open>
  A computation has not issued its navigation yet, or waits for its page, or has
  returned: \<open>Done detailHtml r\<close> keeps what its fetch gave and the record it returned.
\<close>

datatype 'd task = Pending "'d item" | Loading "'d item" | Done string "'d item"

text \<open>
  The running computations, the URL the page was last sent to, the operations on the
  page so far, and the state of the run.
\<close>

record 'd pool =
  tasks :: "'d task list"
  location :: string
  ops :: "page_op list"
  shared :: "'d state"

text \<open>
  Modelled from the spec: \<^verbatim>\<open>cache.tryGet\<close> of \<^verbatim>\<open>@/utils/cache\<close> under simultaneous callers,
  which is not part of the source. Section 4.5: a retained result is returned without
  running \<^verbatim>\<open>compute\<close>, and of the callers with one key only one runs \<^verbatim>\<open>compute\<close>, the
  others receive its result. \<open>flights c seen list\<close> are the records of \<open>list\<close> whose
  callback runs: the first of each link that is neither retained in \<open>c\<close> nor in \<open>seen\<close>.
\<close>

fun flights :: "(string \<rightharpoonup> 'd item) \<Rightarrow> string list \<Rightarrow> 'd item list \<Rightarrow> 'd item list" where
  "flights c seen [] = []"
| "flights c seen (i # rest) =
     (case c (link i) of
        Some v \<Rightarrow> flights c seen rest
      | None \<Rightarrow> if link i \<in> set seen then flights c seen rest
                else i # flights c (link i # seen) rest)"

text \<open>\<^verbatim>\<open>try { ... } catch { } return item;\<close> given what the fetch returned.\<close>

definition outcome :: "site \<Rightarrow> 'd world \<Rightarrow> string \<Rightarrow> 'd item \<Rightarrow> 'd item" where
  "outcome s w detailHtml i = (case detail_try s w detailHtml i of Inl e \<Rightarrow> i | Inr i' \<Rightarrow> i')"

text \<open>
  The \<^verbatim>\<open>if (conn)\<close> branch when the page may have been sent elsewhere since this call's
  \<^verbatim>\<open>page.goto(url)\<close>: whether \<^verbatim>\<open>goto\<close> resolves is a matter of \<open>url\<close>; the evaluations and
  \<^verbatim>\<open>page.content()\<close> read the document of \<open>loc\<close>, where the page was last sent.
\<close>

definition render_shared :: "'d world \<Rightarrow> string \<Rightarrow> string \<Rightarrow> string \<Rightarrow> error + string" where
  "render_shared w loc url selector =
     (case goto_result (page w url selector) of
        Inl e \<Rightarrow> Inl e
      | Inr _ \<Rightarrow> (case wait_loop (polls (page w loc selector)) 0 None 0 of
                    (verify, k, elapsed) \<Rightarrow> content_at (page w loc selector) elapsed))"

text \<open>Computation \<open>k\<close> returns: the callback's record is retained under its link.\<close>

definition settle :: "site \<Rightarrow> 'd world \<Rightarrow> nat \<Rightarrow> 'd item \<Rightarrow> string \<Rightarrow> 'd pool \<Rightarrow> 'd pool" where
  "settle s w k i detailHtml p =
     p\<lparr>tasks := (tasks p)[k := Done detailHtml (outcome s w detailHtml i)],
       shared := (shared p)\<lparr>cache := (cache (shared p))(link i \<mapsto> outcome s w detailHtml i)\<rparr>\<rparr>"

text \<open>
  The next operation of computation \<open>k\<close>. With a session, a pending computation sends
  the page to its link and a loading one reads the page as it is then (every operation
  on a closed browser rejects, which \<^verbatim>\<open>getPageWithRealBrowser\<close> turns into the empty
  string). Without a session the request to the service is the whole fetch.
\<close>

fun advance :: "site \<Rightarrow> 'd world \<Rightarrow> nat \<Rightarrow> 'd task \<Rightarrow> 'd pool \<Rightarrow> 'd pool" where
  "advance s w k (Pending i) p =
     (if conn (shared p)
      then p\<lparr>tasks := (tasks p)[k := Loading i], location := link i,
             ops := ops p @ [Issued (link i)],
             shared := log (Navigate (link i)) (shared p)\<rparr>
      else settle s w k i (catch_empty (render_remote (service w (link i) (detail_selector s))))
             (p\<lparr>shared := log (Request (link i)) (shared p)\<rparr>))"
| "advance s w k (Loading i) p =
     settle s w k i
       (catch_empty (if browser_open (shared p)
                     then render_shared w (location p) (link i) (detail_selector s)
                     else Inl Rejected))
       (p\<lparr>ops := ops p @ [ContentRead (link i)]\<rparr>)"
| "advance s w k (Done detailHtml r) p = p"

fun act :: "site \<Rightarrow> 'd world \<Rightarrow> action \<Rightarrow> 'd pool \<Rightarrow> 'd pool" where
  "act s w Fire p = (if timers (shared p) = [] then p else p\<lparr>shared := timer_fires (shared p)\<rparr>)"
| "act s w (Step k) p = (if k < length (tasks p) then advance s w k (tasks p ! k) p else p)"

definition run_pool :: "site \<Rightarrow> 'd world \<Rightarrow> action list \<Rightarrow> 'd pool \<Rightarrow> 'd pool" where
  "run_pool s w sched p = foldl (\<lambda>q a. act s w a q) p sched"





section \<open>Auxiliary notions\<close>

text \<open>
  The record a detail computation yields for a listed record \<open>i\<close> in state \<open>st\<close>: the
  retained value when its link is cached, otherwise \<open>i\<close> enriched from its own detail
  page (or \<open>i\<close> itself when the \<^verbatim>\<open>try\<close> block is left by an exception).
\<close>

definition own_result :: "site \<Rightarrow> 'd world \<Rightarrow> 'd state \<Rightarrow> 'd item \<Rightarrow> 'd item" where
  "own_result s w st i =
     (case cache st (link i) of
        Some v \<Rightarrow> v
      | None \<Rightarrow> (case detail_try s w (fst (getPageWithRealBrowser w (link i) (detail_selector s) st)) i of
                   Inl e \<Rightarrow> i | Inr i' \<Rightarrow> i'))"

text \<open>The state right after \<^verbatim>\<open>connect\<close> has resolved and the timer is armed.\<close>

definition opened :: "(string \<rightharpoonup> 'd item) \<Rightarrow> 'd state" where
  "opened c = (log Connect (init_state c))\<lparr>conn := True, browser_open := True, timers := [120000]\<rparr>"





text \<open>The page operations of the fetch of link \<open>u\<close>.\<close>

definition own_ops :: "string \<Rightarrow> page_op list \<Rightarrow> page_op list" where
  "own_ops u xs = filter (\<lambda>x. x = Issued u \<or> x = ContentRead u) xs"



section \<open>Well-formed candidate nodes\<close>

text \<open>The title a route reads from a node.\<close>

fun node_title :: "site \<Rightarrow> cand \<Rightarrow> string" where
  "node_title CteeCategory c = or_else (trim (heading_text c)) (trim (link_text c))"
| "node_title CteeNews c = trim (link_text c)"
| "node_title Blocktempo c = trim (link_text c)"

text \<open>A node has a link when its \<^verbatim>\<open>href\<close> attribute is present and not empty.\<close>

definition has_href :: "cand \<Rightarrow> bool" where
  "has_href c = (case href c of None \<Rightarrow> False | Some h \<Rightarrow> truthy h)"

definition well_formed :: "site \<Rightarrow> cand \<Rightarrow> bool" where
  "well_formed s c = (truthy (node_title s c) \<and> has_href c)"

section \<open>Example inputs\<close>

definition blank :: cand where
  "blank = \<lparr>href = None, link_text = '''', heading_text = '''', summary_text = '''',
            date_text = '''', category_text = '''', author_text = '''', img_src = None\<rparr>"

text \<open>A node with a title and a link, a node without title, a node without \<^verbatim>\<open>href\<close>.\<close>

definition story :: "string \<Rightarrow> string \<Rightarrow> cand" where
  "story t h = blank\<lparr>href := Some h, link_text := t\<rparr>"

definition untitled :: cand where
  "untitled = blank\<lparr>href := Some ''/news/0''\<rparr>"

definition unlinked :: cand where
  "unlinked = blank\<lparr>link_text := ''Budget''\<rparr>"

text \<open>A document in which every selector matches the given nodes.\<close>

definition doc_of :: "cand list \<Rightarrow> dom" where
  "doc_of nodes = (\<lambda>selector. nodes)"

text \<open>Three candidates, the second without \<^verbatim>\<open>href\<close>.\<close>

definition three_nodes :: "cand list" where
  "three_nodes = [story ''Rates'' ''/news/1'', unlinked, story ''Chips'' ''https://ctee.com.tw/news/3'']"

text \<open>Three candidates, the second without title.\<close>

definition mixed_nodes :: "cand list" where
  "mixed_nodes = [story ''Rates'' ''/news/1'', untitled, story ''Chips'' ''https://ctee.com.tw/news/3'']"

text \<open>Twenty candidates without title, then one with title and link.\<close>

definition late_nodes :: "cand list" where
  "late_nodes = replicate 20 untitled @ [story ''Rates'' ''/news/1'']"

text \<open>Answers of the page to the readiness check: a rejection, a miss, then a match; and no match ever.\<close>

definition crash_then_found :: "nat \<Rightarrow> poll \<times> nat" where
  "crash_then_found j = (if j = 0 then Crashed else if j = 1 then Missing else Found, 0)"

definition never_found :: "nat \<Rightarrow> poll \<times> nat" where
  "never_found j = (Missing, 0)"

text \<open>
  A world for the examples: the listing has the candidates \<open>mixed_nodes\<close>; the detail
  page of \<^verbatim>\<open>https://ctee.com.tw/news/1\<close> cannot be fetched (the navigation rejects,
  the service request fails), every other page can.
\<close>

definition demo_detail :: detail where
  "demo_detail = \<lparr>content_html = Some ''<p>Full text</p>'', datetime_attr = Some ''2026-01-02'',
                  date_el_text = '''', time_el_text = '''', author_el_text = ''Lin'',
                  category_texts = [''Markets'']\<rparr>"

definition live_page :: navigation where
  "live_page = \<lparr>goto_result = Inr (), polls = crash_then_found, content_at = (\<lambda>t. Inr ''<html>'')\<rparr>"

definition dead_page :: navigation where
  "dead_page = \<lparr>goto_result = Inl Rejected, polls = never_found, content_at = (\<lambda>t. Inr ''<html>'')\<rparr>"

definition demo_world :: "string world" where
  "demo_world =
     \<lparr>connect_result = Inr (),
      page = (\<lambda>url selector. if url = ''https://ctee.com.tw/news/1'' then dead_page else live_page),
      service = (\<lambda>url selector. if url = ''https://ctee.com.tw/news/1'' then FetchRejected
                                 else Json (Snapshots [''<html>''])),
      load = (\<lambda>html. doc_of mixed_nodes),
      load_detail = (\<lambda>html. Inr demo_detail),
      parseDate = id\<rparr>"

definition silent_world :: "string world" where
  "silent_world = demo_world\<lparr>service := (\<lambda>url selector. Json (Snapshots []))\<rparr>"

definition demo_request :: request where
  "demo_request = \<lparr>param = None, currentYear = ''2026''\<rparr>"

definition local_config :: config where
  "local_config = \<lparr>puppeteerRealBrowserService = None,
                    chromiumExecutablePath = Some ''/usr/bin/chromium''\<rparr>"

definition remote_config :: config where
  "remote_config = \<lparr>puppeteerRealBrowserService = Some ''http://localhost:3000'',
                     chromiumExecutablePath = None\<rparr>"

definition both_config :: config where
  "both_config = \<lparr>puppeteerRealBrowserService = Some ''http://localhost:3000'',
                   chromiumExecutablePath = Some ''/usr/bin/chromium''\<rparr>"

definition empty_config :: config where
  "empty_config = \<lparr>puppeteerRealBrowserService = None, chromiumExecutablePath = Some ''''\<rparr>"

definition no_cache :: "string \<rightharpoonup> string item" where
  "no_cache = Map.empty"







section \<open>Properties of the listing stage\<close>

lemma startsWith_absolute_link: "startsWith (absolute_link s l) ''http''"
  by (cases s; cases l) (simp_all add: absolute_link_def startsWith_def)

lemma truthy_absolute_link: "truthy (absolute_link s l)"
  by (cases s; cases l) (auto simp: absolute_link_def truthy_def startsWith_def)

lemma link_list_item: "link (list_item s pd c) = absolute_link s (href c)"
  by (cases s) simp_all

lemma title_list_item: "title (list_item s pd c) = node_title s c"
  by (cases s) simp_all

lemma keep_list_item: "keep (list_item s pd c) = truthy (node_title s c)"
  by (simp add: keep_def link_list_item title_list_item truthy_absolute_link)

lemma list_of_filter_map:
  "list_of s pd nodes = map (list_item s pd) (filter (\<lambda>c. truthy (node_title s c)) (take 20 nodes))"
  by (simp add: list_of_def filter_map o_def keep_list_item)

lemma length_list_of: "length (list_of s pd nodes) \<le> 20"
proof -
  have "length (list_of s pd nodes) \<le> length (take 20 nodes)"
    unfolding list_of_def by (metis length_filter_le length_map)
  then show ?thesis by simp
qed

text \<open>
  Claim C1, as the code has it. The candidates are cut to the first twenty before
  they are filtered, so the result never has more than twenty records. When every
  node among the first twenty that has a title also has a link (a present, non-empty
  \<^verbatim>\<open>href\<close>), the result is exactly the records of the well-formed nodes among the
  first twenty, in document order: nodes without title are left out, and when no
  well-formed node lies beyond the twentieth candidate the result has exactly as many
  records as the markup has well-formed nodes.
\<close>

theorem listing_cap_then_filter:
  "length (extractListing s pd doc) \<le> 20 \<and>
   ((\<forall>c \<in> set (take 20 (candidates s doc)). truthy (node_title s c) \<longrightarrow> has_href c) \<longrightarrow>
      extractListing s pd doc
        = map (list_item s pd) (filter (well_formed s) (take 20 (candidates s doc))) \<and>
      (filter (well_formed s) (drop 20 (candidates s doc)) = [] \<longrightarrow>
         length (extractListing s pd doc) = length (filter (well_formed s) (candidates s doc))))"
proof (intro conjI impI)
  show "length (extractListing s pd doc) \<le> 20"
    by (simp add: extractListing_def length_list_of)
next
  assume h: "\<forall>c \<in> set (take 20 (candidates s doc)). truthy (node_title s c) \<longrightarrow> has_href c"
  then have same: "filter (\<lambda>c. truthy (node_title s c)) (take 20 (candidates s doc))
      = filter (well_formed s) (take 20 (candidates s doc))"
    by (intro filter_cong) (auto simp: well_formed_def)
  show eq: "extractListing s pd doc
      = map (list_item s pd) (filter (well_formed s) (take 20 (candidates s doc)))"
    by (simp add: extractListing_def list_of_filter_map same)
  assume rest: "filter (well_formed s) (drop 20 (candidates s doc)) = []"
  have "filter (well_formed s) (candidates s doc)
      = filter (well_formed s) (take 20 (candidates s doc) @ drop 20 (candidates s doc))"
    by simp
  also have "\<dots> = filter (well_formed s) (take 20 (candidates s doc))"
    unfolding filter_append rest by simp
  finally show "length (extractListing s pd doc) = length (filter (well_formed s) (candidates s doc))"
    by (simp add: eq)
qed


text \<open>
  Claim C1, witness: three candidates, the second without title; the records of the
  first and the third are returned, in that order.
\<close>

theorem listing_cap_then_filter_witness:
  "extractListing CteeNews id (doc_of mixed_nodes)
     = [list_item CteeNews id (story ''Rates'' ''/news/1''),
        list_item CteeNews id (story ''Chips'' ''https://ctee.com.tw/news/3'')]"
proof -
  have nodes: "candidates CteeNews (doc_of mixed_nodes) = mixed_nodes"
    by (simp add: doc_of_def)
  have h: "\<forall>c \<in> set (take 20 (candidates CteeNews (doc_of mixed_nodes))).
             truthy (node_title CteeNews c) \<longrightarrow> has_href c"
    unfolding nodes
    by (simp add: mixed_nodes_def story_def untitled_def blank_def has_href_def truthy_def trim_def)
  have "extractListing CteeNews id (doc_of mixed_nodes)
      = map (list_item CteeNews id)
          (filter (well_formed CteeNews) (take 20 (candidates CteeNews (doc_of mixed_nodes))))"
    using listing_cap_then_filter [of CteeNews id "doc_of mixed_nodes"] h by blast
  also have "filter (well_formed CteeNews) (take 20 (candidates CteeNews (doc_of mixed_nodes)))
      = [story ''Rates'' ''/news/1'', story ''Chips'' ''https://ctee.com.tw/news/3'']"
    unfolding nodes
    by (simp add: mixed_nodes_def story_def untitled_def blank_def well_formed_def has_href_def
        truthy_def trim_def is_space_def)
  finally show ?thesis by (simp only: list.map)
qed

text \<open>
  Claim C1, counterexample to the claim as stated: a markup of twenty candidates
  without title followed by one well-formed candidate contains exactly one well-formed
  node, and the extraction returns no record.
\<close>

theorem listing_late_node_counterexample:
  "length (filter (well_formed CteeNews) (candidates CteeNews (doc_of late_nodes))) = 1 \<and>
   extractListing CteeNews id (doc_of late_nodes) = []"
  by (simp add: doc_of_def late_nodes_def extractListing_def list_of_filter_map well_formed_def
      has_href_def story_def untitled_def blank_def truthy_def trim_def is_space_def)

text \<open>
  Claim C2, the code at the scenario of the claim: of three candidates the first and
  the third have title and link, the second has a title and no \<^verbatim>\<open>href\<close>. The claim
  expects the two complete records; the code returns three, the second with the link
  \<^verbatim>\<open>https://ctee.com.twundefined\<close>.
\<close>

theorem listing_keeps_node_without_href:
  "length three_nodes = 3 \<and>
   map (well_formed CteeCategory) three_nodes = [True, False, True] \<and>
   map link (extractListing CteeCategory id (doc_of three_nodes))
     = [''https://ctee.com.tw/news/1'', ''https://ctee.com.twundefined'',
        ''https://ctee.com.tw/news/3'']"
  by (simp add: doc_of_def three_nodes_def extractListing_def list_of_def articleSelectors_def
      well_formed_def has_href_def story_def unlinked_def blank_def truthy_def trim_def
      is_space_def keep_def absolute_link_def startsWith_def or_else_def)

text \<open>
  Claim C10: every record of the listing stage has a non-empty link that starts with
  \<^verbatim>\<open>http\<close>; the base URL starts with \<^verbatim>\<open>https://\<close>; an \<^verbatim>\<open>href\<close> that starts with
  \<^verbatim>\<open>http\<close> is kept as it is and any other \<^verbatim>\<open>href\<close> is prefixed with the base URL;
  a node without \<^verbatim>\<open>href\<close> gets the base URL followed by \<^verbatim>\<open>undefined\<close>, a non-empty
  link, so that the filter keeps it exactly when it has a title.
\<close>

theorem listing_links_absolute:
  "(\<forall>r \<in> set (extractListing s pd doc). startsWith (link r) ''http'' \<and> truthy (link r)) \<and>
   startsWith (baseUrl s) ''https://'' \<and>
   (\<forall>h. href c = Some h \<and> startsWith h ''http'' \<longrightarrow> link (list_item s pd c) = h) \<and>
   (\<forall>h. href c = Some h \<and> \<not> startsWith h ''http'' \<longrightarrow> link (list_item s pd c) = baseUrl s @ h) \<and>
   (href c = None \<longrightarrow>
      link (list_item s pd c) = baseUrl s @ ''undefined'' \<and>
      truthy (link (list_item s pd c)) \<and>
      keep (list_item s pd c) = truthy (node_title s c))"
proof (intro conjI ballI allI impI)
  fix r assume "r \<in> set (extractListing s pd doc)"
  then obtain c' where r: "r = list_item s pd c'"
    by (auto simp: extractListing_def list_of_def)
  show "startsWith (link r) ''http''"
    by (simp add: r link_list_item startsWith_absolute_link)
  show "truthy (link r)"
    by (simp add: r link_list_item truthy_absolute_link)
next
  show "startsWith (baseUrl s) ''https://''"
    by (cases s) (simp_all add: startsWith_def)
next
  fix h assume "href c = Some h \<and> startsWith h ''http''"
  then show "link (list_item s pd c) = h"
    by (simp add: link_list_item absolute_link_def)
next
  fix h assume "href c = Some h \<and> \<not> startsWith h ''http''"
  then show "link (list_item s pd c) = baseUrl s @ h"
    by (simp add: link_list_item absolute_link_def)
next
  assume "href c = None"
  then show "link (list_item s pd c) = baseUrl s @ ''undefined''"
    by (simp add: link_list_item absolute_link_def)
next
  show "truthy (link (list_item s pd c))"
    by (simp add: link_list_item truthy_absolute_link)
next
  show "keep (list_item s pd c) = truthy (node_title s c)"
    by (rule keep_list_item)
qed

text \<open>
  Claim C10, witness: the node without \<^verbatim>\<open>href\<close>, a relative \<^verbatim>\<open>href\<close> and an absolute
  \<^verbatim>\<open>href\<close>.
\<close>

theorem listing_links_absolute_witness:
  "startsWith (link (list_item CteeCategory id unlinked)) ''http'' \<and>
   link (list_item CteeCategory id unlinked) = ''https://ctee.com.twundefined'' \<and>
   link (list_item Blocktempo id (story ''Rates'' ''/news/1'')) = ''https://www.blocktempo.com/news/1'' \<and>
   link (list_item CteeNews id (story ''Chips'' ''https://ctee.com.tw/news/3'')) = ''https://ctee.com.tw/news/3''"
proof -
  have mem: "list_item CteeCategory id unlinked
      \<in> set (extractListing CteeCategory id (doc_of three_nodes))"
    by (simp add: doc_of_def three_nodes_def extractListing_def list_of_def articleSelectors_def
        story_def unlinked_def blank_def truthy_def trim_def is_space_def keep_def
        absolute_link_def startsWith_def or_else_def)
  have a: "startsWith (link (list_item CteeCategory id unlinked)) ''http''"
    using listing_links_absolute [of CteeCategory id "doc_of three_nodes" unlinked] mem
    by blast
  have none: "href unlinked = None"
    by (simp add: unlinked_def blank_def)
  have b: "link (list_item CteeCategory id unlinked) = baseUrl CteeCategory @ ''undefined''"
    using listing_links_absolute [of CteeCategory id "doc_of three_nodes" unlinked] none
    by blast
  have rel: "href (story ''Rates'' ''/news/1'') = Some ''/news/1'' \<and> \<not> startsWith ''/news/1'' ''http''"
    by (simp add: story_def blank_def startsWith_def)
  have c: "link (list_item Blocktempo id (story ''Rates'' ''/news/1'')) = baseUrl Blocktempo @ ''/news/1''"
    using listing_links_absolute [of Blocktempo id "doc_of three_nodes" "story ''Rates'' ''/news/1''"] rel
    by blast
  have ab: "href (story ''Chips'' ''https://ctee.com.tw/news/3'') = Some ''https://ctee.com.tw/news/3''
      \<and> startsWith ''https://ctee.com.tw/news/3'' ''http''"
    by (simp add: story_def blank_def startsWith_def)
  have d: "link (list_item CteeNews id (story ''Chips'' ''https://ctee.com.tw/news/3'')) = ''https://ctee.com.tw/news/3''"
    using listing_links_absolute [of CteeNews id "doc_of three_nodes" "story ''Chips'' ''https://ctee.com.tw/news/3''"] ab
    by blast
  show ?thesis using a b c d by simp
qed

section \<open>Properties of the challenge wait\<close>

declare wait_loop.simps [simp del]

lemma not_verified_evaluate_catch: "not_verified (evaluate_catch p) = (p \<noteq> Found)"
  by (cases p) (simp_all add: not_verified_def)

lemma wait_loop_stop:
  "\<not> (not_verified v \<and> e < 60000) \<Longrightarrow> wait_loop ps k v e = (v, k, e)"
  by (subst wait_loop.simps) (erule if_not_P)

lemma wait_loop_step:
  "not_verified v \<and> e < 60000 \<Longrightarrow>
     wait_loop ps k v e
       = wait_loop ps (Suc k) (evaluate_catch (fst (ps k))) (e + snd (ps k) + 1000)"
  by (subst wait_loop.simps) (erule if_P)

lemma wait_loop_general:
  "wait_loop ps k v e = (v', n, e') \<Longrightarrow>
     k \<le> n \<and>
     e' = e + (\<Sum>j = k..<n. snd (ps j) + 1000) \<and>
     (\<forall>j. k \<le> j \<and> Suc j < n \<longrightarrow> fst (ps j) \<noteq> Found) \<and>
     (k < n \<longrightarrow> not_verified v \<and> e < 60000 \<and> v' = evaluate_catch (fst (ps (n - 1))) \<and>
        e + (\<Sum>j = k..<n - 1. snd (ps j) + 1000) < 60000) \<and>
     (k = n \<longrightarrow> v' = v) \<and>
     (\<not> not_verified v' \<or> 60000 \<le> e')"
proof (induction ps k v e arbitrary: v' n e' rule: wait_loop.induct)
  case (1 ps k v e)
  show ?case
  proof (cases "not_verified v \<and> e < 60000")
    case False
    with "1.prems" have "v' = v" "n = k" "e' = e"
      by (simp_all add: wait_loop_stop)
    with False show ?thesis by auto
  next
    case True
    let ?v = "evaluate_catch (fst (ps k))"
    let ?e = "e + snd (ps k) + 1000"
    from True "1.prems" have rec: "wait_loop ps (Suc k) ?v ?e = (v', n, e')"
      by (simp add: wait_loop_step)
    note ih = "1.IH" [OF True rec]
    from ih have kn: "Suc k \<le> n" by simp
    then have k_lt: "k < n" by simp
    have sum_split: "(\<Sum>j = k..<n. snd (ps j) + 1000) = (snd (ps k) + 1000) + (\<Sum>j = Suc k..<n. snd (ps j) + 1000)"
      using k_lt by (simp add: sum.atLeast_Suc_lessThan)
    have e': "e' = e + (\<Sum>j = k..<n. snd (ps j) + 1000)"
      using ih sum_split by simp
    have nofound: "\<forall>j. k \<le> j \<and> Suc j < n \<longrightarrow> fst (ps j) \<noteq> Found"
    proof (intro allI impI)
      fix j assume j: "k \<le> j \<and> Suc j < n"
      show "fst (ps j) \<noteq> Found"
      proof (cases "j = k")
        case True
        with j have "Suc k < n" by simp
        with ih have "not_verified ?v" by simp
        then show ?thesis using True by (simp add: not_verified_evaluate_catch)
      next
        case False
        with j have "Suc k \<le> j \<and> Suc j < n" by simp
        with ih show ?thesis by blast
      qed
    qed
    have last: "v' = evaluate_catch (fst (ps (n - 1))) \<and> e + (\<Sum>j = k..<n - 1. snd (ps j) + 1000) < 60000"
    proof (cases "Suc k = n")
      case True
      with ih have "v' = ?v" by simp
      moreover from True have "n - 1 = k" by simp
      ultimately show ?thesis using \<open>not_verified v \<and> e < 60000\<close> by simp
    next
      case False
      with kn have lt: "Suc k < n" by simp
      then have "k < n - 1" by simp
      then have "(\<Sum>j = k..<n - 1. snd (ps j) + 1000)
          = (snd (ps k) + 1000) + (\<Sum>j = Suc k..<n - 1. snd (ps j) + 1000)"
        by (simp add: sum.atLeast_Suc_lessThan)
      with ih lt show ?thesis by simp
    qed
    from ih have stop: "\<not> not_verified v' \<or> 60000 \<le> e'" by blast
    from k_lt have ne: "k \<noteq> n" and le: "k \<le> n" by simp_all
    show ?thesis using le e' nofound last stop True ne by blast
  qed
qed

lemma sum_polls_lower: "1000 * m \<le> (\<Sum>j = 0..<m. snd (ps j) + (1000::nat))"
  by (induction m) simp_all

lemma wait_loop_crash_as_miss:
  "wait_loop (\<lambda>j. (if fst (ps j) = Crashed then Missing else fst (ps j), snd (ps j))) k v e
     = wait_loop ps k v e"
proof (induction ps k v e rule: wait_loop.induct)
  case (1 ps k v e)
  let ?qs = "\<lambda>j. (if fst (ps j) = Crashed then Missing else fst (ps j), snd (ps j))"
  show ?case
  proof (cases "not_verified v \<and> e < 60000")
    case False
    then have "wait_loop ?qs k v e = (v, k, e)" "wait_loop ps k v e = (v, k, e)"
      by (rule wait_loop_stop)+
    then show ?thesis by simp
  next
    case True
    have same: "evaluate_catch (fst (?qs k)) = evaluate_catch (fst (ps k))"
      by (cases "fst (ps k)") simp_all
    have "wait_loop ?qs k v e
        = wait_loop ?qs (Suc k) (evaluate_catch (fst (?qs k))) (e + snd (?qs k) + 1000)"
      using True by (rule wait_loop_step)
    also have "\<dots> = wait_loop ?qs (Suc k) (evaluate_catch (fst (ps k))) (e + snd (ps k) + 1000)"
      by (simp only: same snd_conv)
    also have "\<dots> = wait_loop ps (Suc k) (evaluate_catch (fst (ps k))) (e + snd (ps k) + 1000)"
      by (rule "1.IH" [OF True])
    also have "\<dots> = wait_loop ps k v e"
      using True by (rule wait_loop_step [symmetric])
    finally show ?thesis .
  qed
qed

text \<open>
  Claim C9: the loop makes between 1 and 60 evaluations, each followed by a pause of
  1000 ms (the time spent is the sum of the evaluation times and the pauses); it goes
  on only while no evaluation has matched and less than 60000 ms have passed, and ends
  with a match or with the budget used up; an evaluation that rejects counts as one
  that does not match; and whatever the loop ended with, no error is raised and the
  caller gets the page's content at that moment.
\<close>

theorem challenge_wait:
  assumes "wait_loop ps 0 None 0 = (v, n, el)"
  shows "1 \<le> n \<and> n \<le> 60 \<and>
         el = (\<Sum>j = 0..<n. snd (ps j) + 1000) \<and>
         (\<Sum>j = 0..<n - 1. snd (ps j) + 1000) < 60000 \<and>
         (\<forall>j. Suc j < n \<longrightarrow> fst (ps j) \<noteq> Found) \<and>
         v = evaluate_catch (fst (ps (n - 1))) \<and>
         (v = Some True \<or> 60000 \<le> el) \<and>
         wait_loop (\<lambda>j. (if fst (ps j) = Crashed then Missing else fst (ps j), snd (ps j))) 0 None 0
           = (v, n, el) \<and>
         (\<forall>nav. polls nav = ps \<and> goto_result nav = Inr () \<longrightarrow>
            render_local nav = content_at nav el)"
proof -
  note g = wait_loop_general [OF assms]
  have pos: "0 < n"
  proof (rule ccontr)
    assume "\<not> 0 < n"
    then have "n = 0" by simp
    with g have "el = 0" "v = None" by simp_all
    with g show False by (simp add: not_verified_def)
  qed
  from g pos have before: "(\<Sum>j = 0..<n - 1. snd (ps j) + 1000) < 60000" by simp
  have "1000 * (n - 1) \<le> (\<Sum>j = 0..<n - 1. snd (ps j) + 1000)"
    by (rule sum_polls_lower)
  with before have le: "n \<le> 60" by simp
  from g pos have v: "v = evaluate_catch (fst (ps (n - 1)))" by simp
  from g have "\<not> not_verified v \<or> 60000 \<le> el" by blast
  then have stop: "v = Some True \<or> 60000 \<le> el" by (auto simp: not_verified_def)
  have local: "\<forall>nav. polls nav = ps \<and> goto_result nav = Inr () \<longrightarrow>
      render_local nav = content_at nav el"
    using assms by (simp add: render_local_def)
  from g have el: "el = (\<Sum>j = 0..<n. snd (ps j) + 1000)" by simp
  from g have nofound: "\<forall>j. Suc j < n \<longrightarrow> fst (ps j) \<noteq> Found" by simp
  have crash: "wait_loop (\<lambda>j. (if fst (ps j) = Crashed then Missing else fst (ps j), snd (ps j))) 0 None 0
      = (v, n, el)"
    by (simp only: wait_loop_crash_as_miss assms)
  from pos have one: "1 \<le> n" by simp
  show ?thesis
    using one le el before nofound v stop crash local by (intro conjI)
qed

text \<open>
  Claim C9, witness: a rejection, a miss and a match end the loop after three
  evaluations; a page that never matches ends it after sixty. In both cases the
  content of the page is returned.
\<close>

theorem challenge_wait_witness:
  "render_local \<lparr>goto_result = Inr (), polls = crash_then_found, content_at = (\<lambda>t. Inr ''<html>'')\<rparr>
     = Inr ''<html>'' \<and>
   render_local \<lparr>goto_result = Inr (), polls = never_found, content_at = (\<lambda>t. Inr ''<challenge>'')\<rparr>
     = Inr ''<challenge>'' \<and>
   wait_loop crash_then_found 0 None 0 = (Some True, 3, 3000) \<and>
   wait_loop never_found 0 None 0 = (None, 60, 60000)"
proof -
  have run1: "wait_loop crash_then_found 0 None 0 = (Some True, 3, 3000)"
    by (simp add: wait_loop.simps crash_then_found_def not_verified_def)
  have run2: "wait_loop never_found 0 None 0 = (None, 60, 60000)"
    by (simp add: wait_loop.simps never_found_def not_verified_def)
  have "\<forall>nav. polls nav = crash_then_found \<and> goto_result nav = Inr () \<longrightarrow>
      render_local nav = content_at nav 3000"
    using challenge_wait [OF run1] by blast
  then have a: "render_local \<lparr>goto_result = Inr (), polls = crash_then_found, content_at = (\<lambda>t. Inr ''<html>'')\<rparr>
      = Inr ''<html>''"
    by simp
  have "\<forall>nav. polls nav = never_found \<and> goto_result nav = Inr () \<longrightarrow>
      render_local nav = content_at nav 60000"
    using challenge_wait [OF run2] by blast
  then have b: "render_local \<lparr>goto_result = Inr (), polls = never_found, content_at = (\<lambda>t. Inr ''<challenge>'')\<rparr>
      = Inr ''<challenge>''"
    by simp
  show ?thesis using a b run1 run2 by simp
qed

section \<open>Properties of the fan-out and the handler\<close>

lemma getPage_state:
  "snd (getPageWithRealBrowser w url sel st)
     = log (if conn st then Navigate url else Request url) st"
  by (simp add: getPageWithRealBrowser_def)

lemma getPage_value:
  "conn st = conn st' \<Longrightarrow>
     fst (getPageWithRealBrowser w url sel st) = fst (getPageWithRealBrowser w url sel st')"
  by (simp add: getPageWithRealBrowser_def)

lemma log_fields [simp]:
  "conn (log e st) = conn st" "browser_open (log e st) = browser_open st"
  "timers (log e st) = timers st" "cache (log e st) = cache st"
  "trace (log e st) = trace st @ [e]"
  by (simp_all add: log_def)

lemma detail_compute_eq:
  "detail_compute s w i st
     = (Inr (case detail_try s w (fst (getPageWithRealBrowser w (link i) (detail_selector s) st)) i of
               Inl e \<Rightarrow> i | Inr i' \<Rightarrow> i'),
        log (if conn st then Navigate (link i) else Request (link i)) st)"
  by (simp add: detail_compute_def getPageWithRealBrowser_def)

lemma tryGet_hit: "cache st key = Some v \<Longrightarrow> tryGet key compute st = (Inr v, st)"
  by (simp add: tryGet_def)

lemma tryGet_detail_miss:
  "cache st (link i) = None \<Longrightarrow>
     tryGet (link i) (detail_compute s w i) st
       = (Inr (case detail_try s w (fst (getPageWithRealBrowser w (link i) (detail_selector s) st)) i of
                 Inl e \<Rightarrow> i | Inr i' \<Rightarrow> i'),
          (log (if conn st then Navigate (link i) else Request (link i)) st)
            \<lparr>cache := (cache st)(link i \<mapsto>
               (case detail_try s w (fst (getPageWithRealBrowser w (link i) (detail_selector s) st)) i of
                  Inl e \<Rightarrow> i | Inr i' \<Rightarrow> i'))\<rparr>)"
  by (simp add: tryGet_def detail_compute_eq)

lemma tryGet_detail:
  "\<exists>st'. tryGet (link i) (detail_compute s w i) st = (Inr (own_result s w st i), st') \<and>
         conn st' = conn st \<and> browser_open st' = browser_open st \<and> timers st' = timers st \<and>
         cache st' = (cache st)(link i \<mapsto> own_result s w st i) \<and>
         (\<exists>evs. trace st' = trace st @ evs \<and>
                set evs \<subseteq> (if conn st then range Navigate else range Request))"
proof (cases "cache st (link i)")
  case None
  then show ?thesis
    by (simp add: tryGet_detail_miss own_result_def)
next
  case (Some v)
  then have "(cache st)(link i \<mapsto> v) = cache st" by (auto simp: fun_upd_idem_iff)
  with Some show ?thesis
    by (simp add: tryGet_hit own_result_def)
qed

lemma fan_out_state:
  "\<exists>items st'. fan_out s w list st = (Inr items, st') \<and> length items = length list \<and>
      conn st' = conn st \<and> browser_open st' = browser_open st \<and> timers st' = timers st \<and>
      (\<forall>k v. cache st k = Some v \<longrightarrow> cache st' k = Some v) \<and>
      (\<forall>k. k \<notin> link ` set list \<longrightarrow> cache st' k = cache st k) \<and>
      (\<forall>i \<in> set list. cache st' (link i) \<noteq> None) \<and>
      (\<exists>evs. trace st' = trace st @ evs \<and>
             set evs \<subseteq> (if conn st then range Navigate else range Request))"
proof (induction list arbitrary: st)
  case Nil
  show ?case by simp
next
  case (Cons i rest)
  from tryGet_detail [of i s w st] obtain st1 evs1 where
    one: "tryGet (link i) (detail_compute s w i) st = (Inr (own_result s w st i), st1)"
    and f1: "conn st1 = conn st" "browser_open st1 = browser_open st" "timers st1 = timers st"
    and c1: "cache st1 = (cache st)(link i \<mapsto> own_result s w st i)"
    and t1: "trace st1 = trace st @ evs1" "set evs1 \<subseteq> (if conn st then range Navigate else range Request)"
    by blast
  from Cons.IH [of st1] obtain items st2 evs2 where
    two: "fan_out s w rest st1 = (Inr items, st2)" and len: "length items = length rest"
    and f2: "conn st2 = conn st1" "browser_open st2 = browser_open st1" "timers st2 = timers st1"
    and keep2: "\<forall>k v. cache st1 k = Some v \<longrightarrow> cache st2 k = Some v"
    and out2: "\<forall>k. k \<notin> link ` set rest \<longrightarrow> cache st2 k = cache st1 k"
    and all2: "\<forall>i \<in> set rest. cache st2 (link i) \<noteq> None"
    and t2: "trace st2 = trace st1 @ evs2" "set evs2 \<subseteq> (if conn st1 then range Navigate else range Request)"
    by blast
  have res: "fan_out s w (i # rest) st = (Inr (own_result s w st i # items), st2)"
    by (simp add: one two)
  have keep: "\<forall>k v. cache st k = Some v \<longrightarrow> cache st2 k = Some v"
  proof (intro allI impI)
    fix k v assume kv: "cache st k = Some v"
    then have "cache st1 k = Some v"
      by (cases "k = link i") (simp_all add: c1 own_result_def)
    with keep2 show "cache st2 k = Some v" by blast
  qed
  have out: "\<forall>k. k \<notin> link ` set (i # rest) \<longrightarrow> cache st2 k = cache st k"
    using out2 c1 by simp
  have "cache st1 (link i) \<noteq> None" by (simp add: c1)
  with keep2 have "cache st2 (link i) \<noteq> None" by fastforce
  with all2 have all: "\<forall>j \<in> set (i # rest). cache st2 (link j) \<noteq> None" by simp
  have tr: "trace st2 = trace st @ (evs1 @ evs2)"
    "set (evs1 @ evs2) \<subseteq> (if conn st then range Navigate else range Request)"
    using t1 t2 f1 by auto
  show ?case
    using res len f1 f2 keep out all tr by (intro exI [of _ "own_result s w st i # items"] exI [of _ st2]) auto
qed

lemma browser_close_fields [simp]:
  "conn (browser_close st) = conn st" "browser_open (browser_close st) = False"
  "timers (browser_close st) = timers st" "cache (browser_close st) = cache st"
  "trace (browser_close st) = trace st @ [Close]"
  by (simp_all add: browser_close_def)

lemma init_state_fields [simp]:
  "conn (init_state c) = False" "browser_open (init_state c) = False"
  "timers (init_state c) = []" "cache (init_state c) = c" "trace (init_state c) = []"
  by (simp_all add: init_state_def)

lemma handler_unconfigured:
  "\<not> configured (puppeteerRealBrowserService cfg) \<Longrightarrow>
   \<not> configured (chromiumExecutablePath cfg) \<Longrightarrow>
     handler s cfg req w c = (Inl config_error, init_state c)"
  by (simp add: handler_def)

lemma handler_remote:
  assumes "configured (puppeteerRealBrowserService cfg)"
  shows "handler s cfg req w c =
     (let st2 = log (Request (target_url s req)) (init_state c);
          html = catch_empty (render_remote (service w (target_url s req) (listing_selector s)))
      in if \<not> truthy html then (Inl fetch_error, st2)
         else (case fan_out s w (extractListing s (parseDate w) (load w html)) st2 of
                 (Inl e, st3) \<Rightarrow> (Inl e, st3)
               | (Inr items, st3) \<Rightarrow> (Inr \<lparr>feed_link = target_url s req, feed_item = items\<rparr>, st3)))"
proof -
  let ?st2 = "log (Request (target_url s req)) (init_state c)"
  obtain items st3 where f: "fan_out s w (extractListing s (parseDate w)
        (load w (catch_empty (render_remote (service w (target_url s req) (listing_selector s)))))) ?st2
      = (Inr items, st3)" and c3: "conn st3 = conn ?st2"
    using fan_out_state [of s w _ ?st2] by blast
  from c3 have "\<not> conn st3" by simp
  with assms f show ?thesis
    by (simp add: handler_def acquire_def getPageWithRealBrowser_def Let_def)
qed

lemma opened_fields [simp]:
  "conn (opened c) = True" "browser_open (opened c) = True"
  "timers (opened c) = [120000]" "cache (opened c) = c" "trace (opened c) = [Connect]"
  by (simp_all add: opened_def)

lemma handler_local:
  assumes "\<not> configured (puppeteerRealBrowserService cfg)"
    and "configured (chromiumExecutablePath cfg)"
  shows "handler s cfg req w c =
     (case connect_result w of
        Inl e \<Rightarrow> (Inl e, log Connect (init_state c))
      | Inr u \<Rightarrow>
          (let st2 = log (Navigate (target_url s req)) (opened c);
               html = catch_empty (render_local (page w (target_url s req) (listing_selector s)))
           in if \<not> truthy html then (Inl fetch_error, (browser_close st2)\<lparr>conn := False\<rparr>)
              else (case fan_out s w (extractListing s (parseDate w) (load w html)) st2 of
                      (Inl e, st3) \<Rightarrow> (Inl e, st3)
                    | (Inr items, st3) \<Rightarrow>
                        (Inr \<lparr>feed_link = target_url s req, feed_item = items\<rparr>, browser_close st3))))"
proof (cases "connect_result w")
  case (Inl e)
  with assms show ?thesis
    by (simp add: handler_def acquire_def)
next
  case (Inr u)
  let ?st2 = "log (Navigate (target_url s req)) (opened c)"
  obtain items st3 where f: "fan_out s w (extractListing s (parseDate w)
        (load w (catch_empty (render_local (page w (target_url s req) (listing_selector s)))))) ?st2
      = (Inr items, st3)" and c3: "conn st3 = conn ?st2"
    using fan_out_state [of s w _ ?st2] by blast
  from c3 have "conn st3" by simp
  with assms Inr f show ?thesis
    by (simp add: handler_def acquire_def getPageWithRealBrowser_def Let_def opened_def)
qed

lemma fan_out_total:
  obtains items st' where "fan_out s w list st = (Inr items, st')" "length items = length list"
    "conn st' = conn st" "browser_open st' = browser_open st" "timers st' = timers st"
    "\<forall>i \<in> set list. cache st' (link i) \<noteq> None"
    "\<exists>evs. trace st' = trace st @ evs \<and> set evs \<subseteq> (if conn st then range Navigate else range Request)"
  using fan_out_state [of s w list st] by blast

text \<open>
  Claim C7: when neither the remote service URL nor the browser executable path is
  set, the handler throws the configuration error and has done nothing else: no call
  of \<^verbatim>\<open>connect\<close>, no navigation, no request, no timer, the cache untouched.
\<close>

theorem configuration_error_first:
  assumes "\<not> configured (puppeteerRealBrowserService cfg)"
    and "\<not> configured (chromiumExecutablePath cfg)"
  shows "fst (handler s cfg req w c) = Inl config_error \<and>
         trace (snd (handler s cfg req w c)) = [] \<and>
         \<not> browser_open (snd (handler s cfg req w c)) \<and>
         timers (snd (handler s cfg req w c)) = [] \<and>
         cache (snd (handler s cfg req w c)) = c"
  using assms by (simp add: handler_unconfigured)

lemma remote_failures_empty:
  "r \<in> set [FetchRejected, JsonRejected, Json JNull, Json NoData, Json NoAt,
            Json (Snapshots []), Json (Snapshots ('''' # xs))] \<Longrightarrow>
     catch_empty (render_remote r) = ''''"
  by (auto simp: catch_empty_def or_else_def truthy_def)

text \<open>
  Claim C6: on the remote path a rejected \<^verbatim>\<open>fetch\<close> (transport error or the 60000 ms
  abort), a body that is not JSON or is \<^verbatim>\<open>null\<close>, a body without \<^verbatim>\<open>data\<close>, with an
  empty \<^verbatim>\<open>data\<close> array (\<^verbatim>\<open>{data: []}\<close>) or with an empty first snapshot all give the
  empty string, never an exception; when that happens on the listing fetch the handler
  throws the fetch error, after the one request and with no browser opened.
\<close>

theorem remote_failure_sentinel:
  assumes "r \<in> set [FetchRejected, JsonRejected, Json JNull, Json NoData, Json NoAt,
                    Json (Snapshots []), Json (Snapshots ('''' # xs))]"
  shows "(\<not> conn st \<and> service w url selector = r \<longrightarrow>
            fst (getPageWithRealBrowser w url selector st) = '''') \<and>
         (configured (puppeteerRealBrowserService cfg) \<and>
          service w (target_url s req) (listing_selector s) = r \<longrightarrow>
            fst (handler s cfg req w c) = Inl fetch_error \<and>
            trace (snd (handler s cfg req w c)) = [Request (target_url s req)] \<and>
            \<not> browser_open (snd (handler s cfg req w c)))"
proof (intro conjI impI)
  assume "\<not> conn st \<and> service w url selector = r"
  then show "fst (getPageWithRealBrowser w url selector st) = ''''"
    using remote_failures_empty [OF assms] by (simp add: getPageWithRealBrowser_def)
next
  assume h: "configured (puppeteerRealBrowserService cfg) \<and>
      service w (target_url s req) (listing_selector s) = r"
  then have empty: "catch_empty (render_remote (service w (target_url s req) (listing_selector s))) = ''''"
    using remote_failures_empty [OF assms] by simp
  from h have "handler s cfg req w c
      = (if \<not> truthy (catch_empty (render_remote (service w (target_url s req) (listing_selector s))))
         then (Inl fetch_error, log (Request (target_url s req)) (init_state c))
         else (case fan_out s w (extractListing s (parseDate w) (load w
                 (catch_empty (render_remote (service w (target_url s req) (listing_selector s))))))
                 (log (Request (target_url s req)) (init_state c)) of
                 (Inl e, st3) \<Rightarrow> (Inl e, st3)
               | (Inr items, st3) \<Rightarrow> (Inr \<lparr>feed_link = target_url s req, feed_item = items\<rparr>, st3)))"
    by (simp only: handler_remote Let_def)
  then have run: "handler s cfg req w c
      = (Inl fetch_error, log (Request (target_url s req)) (init_state c))"
    by (simp only: empty truthy_def) simp
  show "fst (handler s cfg req w c) = Inl fetch_error" by (simp add: run)
  show "trace (snd (handler s cfg req w c)) = [Request (target_url s req)]" by (simp add: run)
  show "\<not> browser_open (snd (handler s cfg req w c))" by (simp add: run)
qed

lemma handler_remote_trace:
  assumes "configured (puppeteerRealBrowserService cfg)"
  shows "\<exists>evs. trace (snd (handler s cfg req w c)) = Request (target_url s req) # evs \<and>
               set evs \<subseteq> range Request"
    and "\<not> browser_open (snd (handler s cfg req w c))"
    and "timers (snd (handler s cfg req w c)) = []"
proof -
  let ?st2 = "log (Request (target_url s req)) (init_state c)"
  let ?html = "catch_empty (render_remote (service w (target_url s req) (listing_selector s)))"
  obtain items st3 where f: "fan_out s w (extractListing s (parseDate w) (load w ?html)) ?st2
      = (Inr items, st3)"
    and b3: "browser_open st3 = browser_open ?st2" and t3: "timers st3 = timers ?st2"
    and tr: "\<exists>evs. trace st3 = trace ?st2 @ evs \<and>
        set evs \<subseteq> (if conn ?st2 then range Navigate else range Request)"
    by (rule fan_out_total)
  have run: "snd (handler s cfg req w c) = (if \<not> truthy ?html then ?st2 else st3)"
    using assms f by (simp add: handler_remote Let_def)
  from tr obtain evs where evs: "trace st3 = [Request (target_url s req)] @ evs" "set evs \<subseteq> range Request"
    by auto
  show "\<exists>evs. trace (snd (handler s cfg req w c)) = Request (target_url s req) # evs \<and>
               set evs \<subseteq> range Request"
    using evs by (cases "truthy ?html") (simp_all add: run)
  show "\<not> browser_open (snd (handler s cfg req w c))"
    using b3 by (simp add: run)
  show "timers (snd (handler s cfg req w c)) = []"
    using t3 by (simp add: run)
qed

lemma handler_local_trace:
  assumes "\<not> configured (puppeteerRealBrowserService cfg)"
    and "configured (chromiumExecutablePath cfg)"
    and "connect_result w = Inr u"
  shows "\<exists>evs. trace (snd (handler s cfg req w c))
            = Connect # Navigate (target_url s req) # evs @ [Close] \<and> set evs \<subseteq> range Navigate"
    and "\<not> browser_open (snd (handler s cfg req w c))"
    and "timers (snd (handler s cfg req w c)) = [120000]"
    and "fst (handler s cfg req w c) = Inl fetch_error \<longrightarrow> \<not> conn (snd (handler s cfg req w c))"
proof -
  let ?st2 = "log (Navigate (target_url s req)) (opened c)"
  let ?html = "catch_empty (render_local (page w (target_url s req) (listing_selector s)))"
  obtain items st3 where f: "fan_out s w (extractListing s (parseDate w) (load w ?html)) ?st2
      = (Inr items, st3)"
    and t3: "timers st3 = timers ?st2"
    and tr: "\<exists>evs. trace st3 = trace ?st2 @ evs \<and>
        set evs \<subseteq> (if conn ?st2 then range Navigate else range Request)"
    by (rule fan_out_total)
  have run: "handler s cfg req w c
      = (if \<not> truthy ?html then (Inl fetch_error, (browser_close ?st2)\<lparr>conn := False\<rparr>)
         else (Inr \<lparr>feed_link = target_url s req, feed_item = items\<rparr>, browser_close st3))"
    using assms f by (simp add: handler_local Let_def)
  from tr obtain evs where evs: "trace st3 = [Connect, Navigate (target_url s req)] @ evs"
    "set evs \<subseteq> range Navigate"
    by auto
  show "\<exists>evs. trace (snd (handler s cfg req w c))
            = Connect # Navigate (target_url s req) # evs @ [Close] \<and> set evs \<subseteq> range Navigate"
  proof (cases "truthy ?html")
    case True
    with evs show ?thesis by (simp add: run)
  next
    case False
    then have "trace (snd (handler s cfg req w c)) = Connect # Navigate (target_url s req) # [] @ [Close]"
      by (simp add: run)
    then show ?thesis by (intro exI [of _ "[]"]) simp
  qed
  show "\<not> browser_open (snd (handler s cfg req w c))"
    by (simp add: run)
  show "timers (snd (handler s cfg req w c)) = [120000]"
    using t3 by (simp add: run)
  show "fst (handler s cfg req w c) = Inl fetch_error \<longrightarrow> \<not> conn (snd (handler s cfg req w c))"
    by (simp add: run)
qed

text \<open>
  Claim C5, as the code has it: the backend is chosen by the remote service URL
  alone. When it is set, the run starts with a request to the service, never calls
  \<^verbatim>\<open>connect\<close>, never navigates a page and leaves no browser open, whether or not a
  browser executable path is set. When it is not set and the executable path is, the
  run starts with \<^verbatim>\<open>connect\<close>, sends no request to the service and, once \<^verbatim>\<open>connect\<close>
  has resolved, navigates the session's page to the listing URL.
\<close>

theorem backend_by_service_setting:
  "(configured (puppeteerRealBrowserService cfg) \<longrightarrow>
      (\<exists>evs. trace (snd (handler s cfg req w c)) = Request (target_url s req) # evs) \<and>
      Connect \<notin> set (trace (snd (handler s cfg req w c))) \<and>
      (\<forall>u. Navigate u \<notin> set (trace (snd (handler s cfg req w c)))) \<and>
      \<not> browser_open (snd (handler s cfg req w c))) \<and>
   (\<not> configured (puppeteerRealBrowserService cfg) \<and> configured (chromiumExecutablePath cfg) \<longrightarrow>
      (\<exists>evs. trace (snd (handler s cfg req w c)) = Connect # evs) \<and>
      (\<forall>u. Request u \<notin> set (trace (snd (handler s cfg req w c)))) \<and>
      (connect_result w = Inr () \<longrightarrow>
         (\<exists>evs. trace (snd (handler s cfg req w c)) = Connect # Navigate (target_url s req) # evs)))"
proof (intro conjI impI)
  assume svc: "configured (puppeteerRealBrowserService cfg)"
  from handler_remote_trace(1) [OF svc, of s req w c] obtain evs where
    evs: "trace (snd (handler s cfg req w c)) = Request (target_url s req) # evs"
      "set evs \<subseteq> range Request"
    by blast
  show "\<exists>evs. trace (snd (handler s cfg req w c)) = Request (target_url s req) # evs"
    using evs by blast
  show "Connect \<notin> set (trace (snd (handler s cfg req w c)))"
    using evs by auto
  show "\<forall>u. Navigate u \<notin> set (trace (snd (handler s cfg req w c)))"
    using evs by auto
  show "\<not> browser_open (snd (handler s cfg req w c))"
    by (rule handler_remote_trace(2) [OF svc])
next
  assume loc: "\<not> configured (puppeteerRealBrowserService cfg) \<and> configured (chromiumExecutablePath cfg)"
  then have a: "\<not> configured (puppeteerRealBrowserService cfg)"
    and b: "configured (chromiumExecutablePath cfg)" by simp_all
  show "\<exists>evs. trace (snd (handler s cfg req w c)) = Connect # evs"
  proof (cases "connect_result w")
    case (Inl e)
    then show ?thesis using a b by (simp add: handler_local)
  next
    case (Inr u)
    from handler_local_trace(1) [OF a b Inr, of s req c] show ?thesis by blast
  qed
  show "\<forall>u. Request u \<notin> set (trace (snd (handler s cfg req w c)))"
  proof (cases "connect_result w")
    case (Inl e)
    then show ?thesis using a b by (simp add: handler_local)
  next
    case (Inr u)
    from handler_local_trace(1) [OF a b Inr, of s req c] show ?thesis by auto
  qed
  assume ok: "connect_result w = Inr ()"
  from handler_local_trace(1) [OF a b ok, of s req c]
  show "\<exists>evs. trace (snd (handler s cfg req w c)) = Connect # Navigate (target_url s req) # evs"
    by blast
qed

text \<open>
  Claim C8: when \<^verbatim>\<open>connect\<close> resolves in local mode a timer of 120000 ms is armed
  (none in remote mode). A run with a local session ends with the browser closed and
  the timer still armed; when the timer fires afterwards the browser stays closed and
  the cache is untouched, and after a failed listing fetch (where \<^verbatim>\<open>conn\<close> was set to
  null) the callback does nothing at all. Closing twice, closing after the timer and
  the timer after closing all leave the browser closed.
\<close>

theorem session_timer:
  "(\<not> configured (puppeteerRealBrowserService cfg) \<and> connect_result w = Inr () \<longrightarrow>
      timers (snd (acquire cfg w st)) = timers st @ [120000] \<and>
      browser_open (snd (acquire cfg w st)) \<and> conn (snd (acquire cfg w st))) \<and>
   (configured (puppeteerRealBrowserService cfg) \<longrightarrow> snd (acquire cfg w st) = st) \<and>
   (\<not> configured (puppeteerRealBrowserService cfg) \<and> configured (chromiumExecutablePath cfg) \<and>
    connect_result w = Inr () \<longrightarrow>
      timers (snd (handler s cfg req w c)) = [120000] \<and>
      \<not> browser_open (snd (handler s cfg req w c)) \<and>
      \<not> browser_open (timer_fires (snd (handler s cfg req w c))) \<and>
      cache (timer_fires (snd (handler s cfg req w c))) = cache (snd (handler s cfg req w c)) \<and>
      (fst (handler s cfg req w c) = Inl fetch_error \<longrightarrow>
         timer_fires (snd (handler s cfg req w c)) = snd (handler s cfg req w c))) \<and>
   \<not> browser_open (browser_close st) \<and>
   \<not> browser_open (browser_close (browser_close st)) \<and>
   conn (browser_close (browser_close st)) = conn (browser_close st) \<and>
   cache (browser_close (browser_close st)) = cache (browser_close st) \<and>
   timers (browser_close (browser_close st)) = timers (browser_close st) \<and>
   \<not> browser_open (timer_fires (browser_close st)) \<and>
   (conn st \<longrightarrow> \<not> browser_open (browser_close (timer_fires st)) \<and> \<not> browser_open (timer_fires st))"
proof (intro conjI impI)
  assume "\<not> configured (puppeteerRealBrowserService cfg) \<and> connect_result w = Inr ()"
  then show "timers (snd (acquire cfg w st)) = timers st @ [120000]"
    "browser_open (snd (acquire cfg w st))" "conn (snd (acquire cfg w st))"
    by (simp_all add: acquire_def)
next
  assume "configured (puppeteerRealBrowserService cfg)"
  then show "snd (acquire cfg w st) = st" by (simp add: acquire_def)
next
  assume h: "\<not> configured (puppeteerRealBrowserService cfg) \<and> configured (chromiumExecutablePath cfg) \<and>
    connect_result w = Inr ()"
  then have a: "\<not> configured (puppeteerRealBrowserService cfg)"
    and b: "configured (chromiumExecutablePath cfg)" and k: "connect_result w = Inr ()"
    by simp_all
  show "timers (snd (handler s cfg req w c)) = [120000]"
    by (rule handler_local_trace(3) [OF a b k])
  show closed: "\<not> browser_open (snd (handler s cfg req w c))"
    by (rule handler_local_trace(2) [OF a b k])
  show "\<not> browser_open (timer_fires (snd (handler s cfg req w c)))"
    using closed by (simp add: timer_fires_def)
  show "cache (timer_fires (snd (handler s cfg req w c))) = cache (snd (handler s cfg req w c))"
    by (simp add: timer_fires_def)
  assume "fst (handler s cfg req w c) = Inl fetch_error"
  with handler_local_trace(4) [OF a b k, of s req c]
  show "timer_fires (snd (handler s cfg req w c)) = snd (handler s cfg req w c)"
    by (simp add: timer_fires_def)
next
  assume "conn st"
  then show "\<not> browser_open (browser_close (timer_fires st))" "\<not> browser_open (timer_fires st)"
    by (simp_all add: timer_fires_def)
qed (simp_all add: timer_fires_def)

section \<open>Examples\<close>

text \<open>
  Claim C7, witness: no service URL and an empty executable path.
\<close>

theorem configuration_error_first_witness:
  "fst (handler Blocktempo empty_config demo_request demo_world no_cache) = Inl config_error \<and>
   trace (snd (handler Blocktempo empty_config demo_request demo_world no_cache)) = []"
proof -
  have a: "\<not> configured (puppeteerRealBrowserService empty_config)"
    and b: "\<not> configured (chromiumExecutablePath empty_config)"
    by (simp_all add: empty_config_def configured_def truthy_def)
  from configuration_error_first [OF a b, of Blocktempo demo_request demo_world no_cache]
  show ?thesis by blast
qed

text \<open>
  Claim C6, witness: the service answers \<^verbatim>\<open>{data: []}\<close> to the listing request.
\<close>

theorem remote_failure_sentinel_witness:
  "fst (handler CteeCategory remote_config demo_request silent_world no_cache) = Inl fetch_error \<and>
   trace (snd (handler CteeCategory remote_config demo_request silent_world no_cache))
     = [Request ''https://ctee.com.tw/finance/fintech'']"
proof -
  have r: "Json (Snapshots []) \<in> set [FetchRejected, JsonRejected, Json JNull, Json NoData, Json NoAt,
      Json (Snapshots []), Json (Snapshots ('''' # []))]"
    by simp
  have h: "configured (puppeteerRealBrowserService remote_config) \<and>
      service silent_world (target_url CteeCategory demo_request) (listing_selector CteeCategory)
        = Json (Snapshots [])"
    by (simp add: remote_config_def configured_def truthy_def silent_world_def demo_world_def)
  have url: "target_url CteeCategory demo_request = ''https://ctee.com.tw/finance/fintech''"
    by (simp add: demo_request_def param_or_def)
  from remote_failure_sentinel [OF r, of "init_state no_cache" silent_world "''''" "''''"
      remote_config CteeCategory demo_request no_cache] h
  have "fst (handler CteeCategory remote_config demo_request silent_world no_cache) = Inl fetch_error \<and>
      trace (snd (handler CteeCategory remote_config demo_request silent_world no_cache))
        = [Request (target_url CteeCategory demo_request)]"
    by blast
  then show ?thesis unfolding url .
qed

text \<open>
  Claim C5, counterexample to the claim as stated: with both the executable path and
  the service URL set, the run consists of three requests to the service (the listing
  and two detail pages); no session is opened.
\<close>

theorem local_path_set_remote_used_counterexample:
  "configured (chromiumExecutablePath both_config) \<and>
   trace (snd (handler CteeCategory both_config demo_request demo_world no_cache))
     = [Request ''https://ctee.com.tw/finance/fintech'', Request ''https://ctee.com.tw/news/1'',
        Request ''https://ctee.com.tw/news/3''] \<and>
   \<not> browser_open (snd (handler CteeCategory both_config demo_request demo_world no_cache))"
  by (simp add: handler_def both_config_def configured_def truthy_def demo_request_def param_or_def
      acquire_def getPageWithRealBrowser_def demo_world_def catch_empty_def or_else_def
      extractListing_def list_of_def articleSelectors_def doc_of_def mixed_nodes_def story_def
      untitled_def blank_def trim_def is_space_def keep_def absolute_link_def startsWith_def
      date_of_def tryGet_def detail_compute_def detail_try_def demo_detail_def set_content_def
      set_author_def Let_def init_state_def log_def no_cache_def)

text \<open>
  Claim C5, witness: a run with only the service URL set and a run with only the
  executable path set.
\<close>

theorem backend_by_service_setting_witness:
  "Connect \<notin> set (trace (snd (handler CteeNews remote_config demo_request demo_world no_cache))) \<and>
   hd (trace (snd (handler CteeNews local_config demo_request demo_world no_cache))) = Connect \<and>
   hd (tl (trace (snd (handler CteeNews local_config demo_request demo_world no_cache))))
     = Navigate ''https://ctee.com.tw/finance/fintech''"
proof -
  have r: "configured (puppeteerRealBrowserService remote_config)"
    by (simp add: remote_config_def configured_def truthy_def)
  have l: "\<not> configured (puppeteerRealBrowserService local_config) \<and>
      configured (chromiumExecutablePath local_config)"
    by (simp add: local_config_def configured_def truthy_def)
  have k: "connect_result demo_world = Inr ()"
    by (simp add: demo_world_def)
  have url: "target_url CteeNews demo_request = ''https://ctee.com.tw/finance/fintech''"
    by (simp add: demo_request_def param_or_def)
  from backend_by_service_setting [of remote_config CteeNews demo_request demo_world no_cache] r
  have a: "Connect \<notin> set (trace (snd (handler CteeNews remote_config demo_request demo_world no_cache)))"
    by blast
  from backend_by_service_setting [of local_config CteeNews demo_request demo_world no_cache] l k
  obtain evs where "trace (snd (handler CteeNews local_config demo_request demo_world no_cache))
      = Connect # Navigate (target_url CteeNews demo_request) # evs"
    by blast
  then have "trace (snd (handler CteeNews local_config demo_request demo_world no_cache))
      = Connect # Navigate ''https://ctee.com.tw/finance/fintech'' # evs"
    unfolding url .
  then show ?thesis using a by simp
qed

text \<open>
  Claim C8, witness: a run with a local session.
\<close>

theorem session_timer_witness:
  "timers (snd (handler CteeNews local_config demo_request demo_world no_cache)) = [120000] \<and>
   \<not> browser_open (snd (handler CteeNews local_config demo_request demo_world no_cache)) \<and>
   \<not> browser_open (timer_fires (snd (handler CteeNews local_config demo_request demo_world no_cache)))"
proof -
  have l: "\<not> configured (puppeteerRealBrowserService local_config) \<and>
      configured (chromiumExecutablePath local_config) \<and> connect_result demo_world = Inr ()"
    by (simp add: local_config_def configured_def truthy_def demo_world_def)
  from session_timer [of local_config demo_world "init_state no_cache" CteeNews demo_request no_cache] l
  show ?thesis by blast
qed

section \<open>Properties of the fan-out in any order of execution\<close>




lemma flights_cached [simp]: "\<forall>i \<in> set list. c (link i) \<noteq> None \<Longrightarrow> flights c seen list = []"
  by (induction list arbitrary: seen) (auto split: option.splits)


lemma settle_fields [simp]:
  "tasks (settle s w k i h p) = (tasks p)[k := Done h (outcome s w h i)]"
  "location (settle s w k i h p) = location p"
  "ops (settle s w k i h p) = ops p"
  "conn (shared (settle s w k i h p)) = conn (shared p)"
  "browser_open (shared (settle s w k i h p)) = browser_open (shared p)"
  "timers (shared (settle s w k i h p)) = timers (shared p)"
  "trace (shared (settle s w k i h p)) = trace (shared p)"
  "cache (shared (settle s w k i h p)) = (cache (shared p))(link i \<mapsto> outcome s w h i)"
  by (simp_all add: settle_def)

lemma timer_fires_fields [simp]:
  "conn (timer_fires st) = conn st" "timers (timer_fires st) = timers st"
  "cache (timer_fires st) = cache st"
  by (simp_all add: timer_fires_def browser_close_def)







lemma run_pool_Nil [simp]: "run_pool s w [] p = p"
  by (simp add: run_pool_def)

lemma run_pool_Cons: "run_pool s w (a # rest) p = run_pool s w rest (act s w a p)"
  by (simp add: run_pool_def)

lemma length_tasks_advance [simp]: "length (tasks (advance s w k t p)) = length (tasks p)"
  by (cases t) simp_all

lemma length_tasks_act [simp]: "length (tasks (act s w a p)) = length (tasks p)"
  by (cases a) simp_all

lemma length_tasks_run [simp]: "length (tasks (run_pool s w sched p)) = length (tasks p)"
  by (induction sched arbitrary: p) (simp_all add: run_pool_Cons)

lemma done_stays_act:
  "j < length (tasks p) \<Longrightarrow> tasks p ! j = Done h r \<Longrightarrow> tasks (act s w a p) ! j = Done h r"
proof (cases a)
  case Fire
  assume "tasks p ! j = Done h r"
  with Fire show ?thesis by simp
next
  case (Step k)
  assume j: "j < length (tasks p)" and t: "tasks p ! j = Done h r"
  show ?thesis
  proof (cases "k = j")
    case True
    with Step t j show ?thesis by simp
  next
    case False
    with Step t j show ?thesis by (cases "tasks p ! k") simp_all
  qed
qed

lemma done_stays_run:
  "j < length (tasks p) \<Longrightarrow> tasks p ! j = Done h r \<Longrightarrow> tasks (run_pool s w sched p) ! j = Done h r"
  by (induction sched arbitrary: p) (simp_all add: run_pool_Cons done_stays_act)











lemma own_ops_append [simp]: "own_ops u (xs @ ys) = own_ops u xs @ own_ops u ys"
  by (simp add: own_ops_def)

lemma own_ops_single [simp]:
  "own_ops u [Issued v] = (if u = v then [Issued v] else [])"
  "own_ops u [ContentRead v] = (if u = v then [ContentRead v] else [])"
  by (auto simp: own_ops_def)

































end
